theory Spec2Isabelle
  imports Complex_Main
begin

section \<open>Values of the host language\<close>

text \<open>
  The service is the class \<open>MarketDataService\<close> of
  \<open>src/services/MarketDataService.ts\<close>. It talks to three things that are not part of
  the class: a WebSocket (package \<open>ws\<close>), the event bus and the logger. Every call
  the class makes on one of them is recorded, in order, in the state (fields
  \<open>effects\<close> and \<open>logs\<close>), and every callback the class registers is a function
  of the model that the environment may invoke.

  \<open>JSON.parse\<close> yields a value of the type \<open>json\<close> or throws. Numbers are only
  ever copied by the service, never computed with, so they are carried as reals.
  A property read yields \<open>undefined\<close> (here \<open>None\<close>) when the property is absent.
\<close>

datatype json =
    JNull
  | JBool bool
  | JNum real
  | JStr string
  | JArr "json list"
  | JObj "(string \<times> json) list"

type_synonym jsvalue = "json option"

datatype js_error = JsError string | JsTypeError string | JsSyntaxError string

text \<open>
  \<open>getProp v k\<close> is the expression \<open>v.k\<close> for the keys the service reads
  (\<open>type\<close>, \<open>data\<close>, \<open>s\<close>, \<open>p\<close>, \<open>v\<close>, \<open>t\<close>): none of them is inherited
  from a prototype, so the read finds an own property of an object, throws a TypeError
  on \<open>null\<close> and is \<open>undefined\<close> on every other value.
\<close>

fun getProp :: "json \<Rightarrow> string \<Rightarrow> js_error + jsvalue" where
  "getProp JNull k = Inl (JsTypeError (''Cannot read properties of null (reading '' @ k @ '')''))"
| "getProp (JObj kvs) k = Inr (map_of kvs k)"
| "getProp (JBool b) k = Inr None"
| "getProp (JNum n) k = Inr None"
| "getProp (JStr str) k = Inr None"
| "getProp (JArr vs) k = Inr None"

text \<open>Truthiness, as \<open>&&\<close> tests it.\<close>

fun truthy :: "jsvalue \<Rightarrow> bool" where
  "truthy None = False"
| "truthy (Some JNull) = False"
| "truthy (Some (JBool b)) = b"
| "truthy (Some (JNum n)) = (n \<noteq> 0)"
| "truthy (Some (JStr str)) = (str \<noteq> [])"
| "truthy (Some (JArr vs)) = True"
| "truthy (Some (JObj kvs)) = True"

text \<open>Decimal digits of a number, for the one log message that interpolates numbers.\<close>

fun decimal :: "nat \<Rightarrow> string" where
  "decimal n =
     (if n < 10 then [''0123456789'' ! n]
      else decimal (n div 10) @ [''0123456789'' ! (n mod 10)])"

declare decimal.simps [simp del]

section \<open>The state of the service and of what it drives\<close>

text \<open>The interface \<open>MarketTick\<close> of \<open>src/types/index.ts\<close>.\<close>

record MarketTick =
  symbol :: jsvalue
  price :: jsvalue
  volume :: jsvalue
  timestamp :: jsvalue

datatype ready_state = CONNECTING | OPEN | CLOSING | CLOSED

text \<open>
  A WebSocket object: its identity (the number of the \<open>new WebSocket\<close> call that made
  it) and its \<open>readyState\<close>, which the library changes.
\<close>

record websocket =
  sockId :: nat
  readyState :: ready_state

datatype log_level = DEBUG | INFO | WARN | ERROR

datatype timer_callback = ConnectionTimeoutCallback nat | ReconnectCallback | PingCallback

text \<open>
  The calls the service makes on its collaborators. Sockets and timers are named by the
  number under which they were created; a frame is the object given to
  \<open>JSON.stringify\<close>.
\<close>

datatype effect =
    NewWebSocket nat string
  | WsSend nat json
  | WsCloseCall nat
  | WsTerminate nat
  | WsPingCall nat
  | SetTimeout nat timer_callback nat
  | ClearTimeout nat
  | SetInterval nat timer_callback nat
  | ClearInterval nat
  | EmitMarketTick MarketTick
  | EmitConnectionLost
  | StartResolved
  | StartRejected js_error

text \<open>
  A promise as its holder sees it: already fulfilled, already rejected, or pending on the
  promise of the numbered \<open>connect\<close> call.
\<close>

datatype promise = Fulfilled | Rejected js_error | Pending nat

datatype awaiter = StartCall | ReconnectCall

text \<open>
  The private fields of the class, followed by the bookkeeping of the environment: the
  number of sockets and timers created so far, who awaits which pending \<open>connect\<close>
  promise, and the two traces. \<open>subscribedSymbols\<close> is a \<open>Set<string>\<close>, kept as the
  list of its elements in insertion order (the order in which the set iterates).
\<close>

record service =
  apiKey :: string
  wsUrl :: string
  ws :: "websocket option"
  running :: bool
  reconnectAttempts :: nat
  subscribedSymbols :: "string list"
  pingInterval :: "nat option"
  connectionTimeout :: "nat option"
  socketCount :: nat
  timerCount :: nat
  pendingConnects :: "(nat \<times> awaiter) list"
  effects :: "effect list"
  logs :: "(log_level \<times> string) list"

text \<open>The two fields the class initialises and never assigns again.\<close>

definition maxReconnectAttempts :: nat where
  "maxReconnectAttempts = 5"

definition reconnectDelay :: nat where
  "reconnectDelay = 5000"

text \<open>The constructor.\<close>

definition newMarketDataService :: "string \<Rightarrow> string \<Rightarrow> service" where
  "newMarketDataService key url =
     \<lparr>apiKey = key, wsUrl = url, ws = None, running = False, reconnectAttempts = 0,
      subscribedSymbols = [], pingInterval = None, connectionTimeout = None,
      socketCount = 0, timerCount = 0, pendingConnects = [], effects = [], logs = []\<rparr>"

text \<open>
  A call of a method of the \<open>Logger\<close> is recorded with its level and message (the
  class \<open>Logger\<close> prints it when the level passes \<open>LOG_LEVEL\<close>; the metadata
  argument is left out). \<open>perform\<close> records a call on the socket, on a timer function
  or on the event bus. The module of the event bus is not among the sources: \<open>emit\<close>
  is taken to deliver the event and return, as it does when no listener throws.
\<close>

definition logger :: "log_level \<Rightarrow> string \<Rightarrow> service \<Rightarrow> service" where
  "logger lvl msg s = s\<lparr>logs := logs s @ [(lvl, msg)]\<rparr>"

definition perform :: "effect \<Rightarrow> service \<Rightarrow> service" where
  "perform e s = s\<lparr>effects := effects s @ [e]\<rparr>"

text \<open>\<open>Set.add\<close> and \<open>Set.delete\<close> on the list of elements.\<close>

definition setAdd :: "string \<Rightarrow> string list \<Rightarrow> string list" where
  "setAdd x xs = (if x \<in> set xs then xs else xs @ [x])"

definition setDelete :: "string \<Rightarrow> string list \<Rightarrow> string list" where
  "setDelete x xs = filter (\<lambda>y. y \<noteq> x) xs"

section \<open>The public operations\<close>

definition isRunning :: "service \<Rightarrow> bool" where
  "isRunning s = running s"

definition getSubscribedSymbols :: "service \<Rightarrow> string list" where
  "getSubscribedSymbols s = subscribedSymbols s"

definition subscribeMessage :: "string \<Rightarrow> json" where
  "subscribeMessage symb = JObj [(''type'', JStr ''subscribe''), (''symbol'', JStr symb)]"

definition unsubscribeMessage :: "string \<Rightarrow> json" where
  "unsubscribeMessage symb = JObj [(''type'', JStr ''unsubscribe''), (''symbol'', JStr symb)]"

definition subscribe :: "string \<Rightarrow> service \<Rightarrow> service" where
  "subscribe symb s =
     (case ws s of
        None \<Rightarrow> logger ERROR ''Cannot subscribe - service not running'' s
      | Some w \<Rightarrow>
          if \<not> running s then logger ERROR ''Cannot subscribe - service not running'' s
          else if readyState w \<noteq> OPEN then
            (logger WARN ''WebSocket not ready, queuing subscription'' s)
              \<lparr>subscribedSymbols := setAdd symb (subscribedSymbols s)\<rparr>
          else
            logger DEBUG ''Sent subscribe message''
              (perform (WsSend (sockId w) (subscribeMessage symb))
                ((logger INFO (''Subscribing to '' @ symb) s)
                   \<lparr>subscribedSymbols := setAdd symb (subscribedSymbols s)\<rparr>)))"

definition unsubscribe :: "string \<Rightarrow> service \<Rightarrow> service" where
  "unsubscribe symb s =
     (case ws s of
        None \<Rightarrow> logger ERROR ''Cannot unsubscribe - service not running'' s
      | Some w \<Rightarrow>
          if \<not> running s then logger ERROR ''Cannot unsubscribe - service not running'' s
          else if readyState w \<noteq> OPEN then
            (logger WARN ''WebSocket not ready'' s)
              \<lparr>subscribedSymbols := setDelete symb (subscribedSymbols s)\<rparr>
          else
            logger DEBUG ''Sent unsubscribe message''
              (perform (WsSend (sockId w) (unsubscribeMessage symb))
                ((logger INFO (''Unsubscribing from '' @ symb) s)
                   \<lparr>subscribedSymbols := setDelete symb (subscribedSymbols s)\<rparr>)))"

text \<open>
  \<open>resubscribeAll\<close>: the snapshot \<open>Array.from(this.subscribedSymbols)\<close>, the
  \<open>clear()\<close>, then \<open>subscribe\<close> on each symbol of the snapshot in order.
\<close>

definition resubscribeAll :: "service \<Rightarrow> service" where
  "resubscribeAll s =
     (if subscribedSymbols s = [] then logger DEBUG ''No symbols to resubscribe'' s
      else
        foldl (\<lambda>st symb. subscribe symb st)
          ((logger INFO ''Resubscribing to all symbols'' s)\<lparr>subscribedSymbols := []\<rparr>)
          (subscribedSymbols s))"

section \<open>Connecting\<close>

text \<open>
  \<open>connect\<close> up to the point where it returns its promise. \<open>new WebSocket(url)\<close> may
  throw; whether it does is the environment's choice (\<open>Some err\<close>) and lands in the
  \<open>catch\<close> block, which rejects the promise at once. Otherwise the socket and the
  connection timeout are created and the promise stays pending until one of the
  callbacks below settles it.
\<close>

definition connect :: "js_error option \<Rightarrow> service \<Rightarrow> promise \<times> service" where
  "connect thrown s =
     (case thrown of
        Some err \<Rightarrow>
          (Rejected err,
           logger ERROR ''Failed to connect to WebSocket''
             (logger DEBUG ''Connecting to Finnhub WebSocket'' s))
      | None \<Rightarrow>
          (Pending (socketCount s),
           (logger DEBUG ''Connecting to Finnhub WebSocket'' s)
             \<lparr>ws := Some \<lparr>sockId = socketCount s, readyState = CONNECTING\<rparr>,
              connectionTimeout := Some (timerCount s),
              socketCount := Suc (socketCount s),
              timerCount := Suc (timerCount s),
              effects := effects s @
                [NewWebSocket (socketCount s) (wsUrl s @ ''?token='' @ apiKey s),
                 SetTimeout (timerCount s) (ConnectionTimeoutCallback (socketCount s)) 10000]\<rparr>))"

text \<open>
  Settling the promise of \<open>connect\<close> call \<open>p\<close> runs the continuation of whoever awaits
  it: \<open>start\<close> logs and returns to its caller (or throws to it), the reconnect timer's
  \<open>catch\<close> logs. A promise settles once; later calls of \<open>resolve\<close> or \<open>reject\<close> do
  nothing.
\<close>

definition forget :: "nat \<Rightarrow> service \<Rightarrow> service" where
  "forget p s = s\<lparr>pendingConnects := filter (\<lambda>q. fst q \<noteq> p) (pendingConnects s)\<rparr>"

definition resolvePromise :: "nat \<Rightarrow> service \<Rightarrow> service" where
  "resolvePromise p s =
     (case map_of (pendingConnects s) p of
        None \<Rightarrow> s
      | Some StartCall \<Rightarrow>
          perform StartResolved (logger INFO ''Market data service started'' (forget p s))
      | Some ReconnectCall \<Rightarrow> forget p s)"

definition rejectPromise :: "nat \<Rightarrow> js_error \<Rightarrow> service \<Rightarrow> service" where
  "rejectPromise p err s =
     (case map_of (pendingConnects s) p of
        None \<Rightarrow> s
      | Some StartCall \<Rightarrow> perform (StartRejected err) (forget p s)
      | Some ReconnectCall \<Rightarrow> logger ERROR ''Reconnection failed'' (forget p s))"

text \<open>
  \<open>start\<close> returns a promise: fulfilled at once when the service is already running
  (the early \<open>return\<close> after the warning), otherwise the promise of \<open>connect\<close>.
\<close>

definition start :: "js_error option \<Rightarrow> service \<Rightarrow> promise \<times> service" where
  "start thrown s =
     (if running s then (Fulfilled, logger WARN ''Service already running'' s)
      else
        (case connect thrown ((logger INFO ''Starting market data service'' s)\<lparr>running := True\<rparr>) of
           (Rejected err, s1) \<Rightarrow> (Rejected err, s1)
         | (Pending p, s1) \<Rightarrow>
             (Pending p, s1\<lparr>pendingConnects := pendingConnects s1 @ [(p, StartCall)]\<rparr>)
         | (Fulfilled, s1) \<Rightarrow> (Fulfilled, logger INFO ''Market data service started'' s1)))"

text \<open>
  \<open>stop\<close> awaits nothing and has no statement that throws: the promise it returns is
  fulfilled, so the model returns the state alone.
\<close>

definition stop :: "service \<Rightarrow> service" where
  "stop s =
     (if \<not> running s then logger WARN ''Service not running'' s
      else
        let s1 = (logger INFO ''Stopping market data service'' s)\<lparr>running := False\<rparr>;
            s2 = (case pingInterval s1 of
                    None \<Rightarrow> s1
                  | Some t \<Rightarrow> (perform (ClearInterval t) s1)\<lparr>pingInterval := None\<rparr>);
            s3 = (case connectionTimeout s2 of
                    None \<Rightarrow> s2
                  | Some t \<Rightarrow> (perform (ClearTimeout t) s2)\<lparr>connectionTimeout := None\<rparr>);
            s4 = (case ws s3 of
                    None \<Rightarrow> s3
                  | Some w \<Rightarrow> (perform (WsCloseCall (sockId w)) s3)\<lparr>ws := None\<rparr>)
        in logger INFO ''Market data service stopped'' (s4\<lparr>subscribedSymbols := []\<rparr>))"

section \<open>Inbound messages\<close>

text \<open>
  The body of the \<open>forEach\<close> callback builds the tick from the four reads
  \<open>trade.s\<close>, \<open>trade.p\<close>, \<open>trade.v\<close>, \<open>trade.t\<close>, in this order; a read throws
  when the entry is \<open>null\<close>.
\<close>

definition tickOf :: "json \<Rightarrow> js_error + MarketTick" where
  "tickOf trade =
     (case getProp trade ''s'' of
        Inl e \<Rightarrow> Inl e
      | Inr sv \<Rightarrow>
          (case getProp trade ''p'' of
             Inl e \<Rightarrow> Inl e
           | Inr pv \<Rightarrow>
               (case getProp trade ''v'' of
                  Inl e \<Rightarrow> Inl e
                | Inr vv \<Rightarrow>
                    (case getProp trade ''t'' of
                       Inl e \<Rightarrow> Inl e
                     | Inr tv \<Rightarrow>
                         Inr \<lparr>symbol = sv, price = pv, volume = vv, timestamp = tv\<rparr>))))"

text \<open>
  \<open>message.data.forEach\<close>: one tick is logged and emitted per entry, in order. An
  exception leaves the loop; what was emitted before it stays emitted.
\<close>

fun forEachTrade :: "json list \<Rightarrow> service \<Rightarrow> service \<times> js_error option" where
  "forEachTrade [] s = (s, None)"
| "forEachTrade (trade # rest) s =
     (case tickOf trade of
        Inl e \<Rightarrow> (s, Some e)
      | Inr tick \<Rightarrow> forEachTrade rest (perform (EmitMarketTick tick) (logger DEBUG ''Market tick'' s)))"

text \<open>
  \<open>handleMessage\<close>, given what \<open>JSON.parse(data.toString())\<close> did: thrown (\<open>Inl\<close>)
  or returned a value. Every exception inside the \<open>try\<close> block ends in the \<open>catch\<close>
  block, which logs: the parse error, the read of \<open>type\<close> on \<open>null\<close>, the call of
  \<open>forEach\<close> on a truthy value that is no array, and an exception of the loop.
\<close>

definition handleMessage :: "js_error + json \<Rightarrow> service \<Rightarrow> service" where
  "handleMessage parsed s =
     (case parsed of
        Inl err \<Rightarrow> logger ERROR ''Error handling WebSocket message'' s
      | Inr message \<Rightarrow>
          (case getProp message ''type'' of
             Inl err \<Rightarrow> logger ERROR ''Error handling WebSocket message'' s
           | Inr ty \<Rightarrow>
               if ty = Some (JStr ''ping'') then logger DEBUG ''Received ping message'' s
               else if ty = Some (JStr ''trade'') then
                 (case getProp message ''data'' of
                    Inl err \<Rightarrow> logger ERROR ''Error handling WebSocket message'' s
                  | Inr d \<Rightarrow>
                      if truthy d then
                        (case d of
                           Some (JArr entries) \<Rightarrow>
                             (case forEachTrade entries (logger DEBUG ''Received trade data'' s) of
                                (s1, None) \<Rightarrow> s1
                              | (s1, Some err) \<Rightarrow>
                                  logger ERROR ''Error handling WebSocket message'' s1)
                         | _ \<Rightarrow>
                             logger ERROR ''Error handling WebSocket message''
                               (logger DEBUG ''Received trade data'' s))
                      else s)
               else s))"

section \<open>Disconnects and timers\<close>

definition handleDisconnect :: "service \<Rightarrow> service" where
  "handleDisconnect s =
     (if \<not> running s then s
      else if reconnectAttempts s < maxReconnectAttempts then
        (perform
           (SetTimeout (timerCount s) ReconnectCallback
              (reconnectDelay * (reconnectAttempts s + 1)))
           (logger INFO
              (''Attempting to reconnect in '' @ decimal (reconnectDelay * (reconnectAttempts s + 1))
                 @ ''ms ('' @ decimal (reconnectAttempts s + 1) @ ''/''
                 @ decimal maxReconnectAttempts @ '')'')
              s))
          \<lparr>reconnectAttempts := reconnectAttempts s + 1, timerCount := Suc (timerCount s)\<rparr>
      else perform EmitConnectionLost (logger ERROR ''Max reconnect attempts reached'' s))"

text \<open>The callback given to \<open>setTimeout\<close> by \<open>handleDisconnect\<close>.\<close>

definition onReconnectTimer :: "js_error option \<Rightarrow> service \<Rightarrow> service" where
  "onReconnectTimer thrown s =
     (if running s then
        (case connect thrown s of
           (Rejected err, s1) \<Rightarrow> logger ERROR ''Reconnection failed'' s1
         | (Pending p, s1) \<Rightarrow> s1\<lparr>pendingConnects := pendingConnects s1 @ [(p, ReconnectCall)]\<rparr>
         | (Fulfilled, s1) \<Rightarrow> s1)
      else s)"

text \<open>The callback given to \<open>setTimeout\<close> by \<open>connect\<close> call \<open>p\<close>.\<close>

definition onConnectionTimeout :: "nat \<Rightarrow> service \<Rightarrow> service" where
  "onConnectionTimeout p s =
     (case ws s of
        None \<Rightarrow> s
      | Some w \<Rightarrow>
          if readyState w \<noteq> OPEN then
            rejectPromise p (JsError ''WebSocket connection timeout'')
              (perform (WsTerminate (sockId w)) (logger ERROR ''Connection timeout'' s))
          else s)"

definition setupPingInterval :: "service \<Rightarrow> service" where
  "setupPingInterval s =
     (perform (SetInterval (timerCount s) PingCallback 30000) s)
       \<lparr>pingInterval := Some (timerCount s), timerCount := Suc (timerCount s)\<rparr>"

text \<open>The callback given to \<open>setInterval\<close>.\<close>

definition onPingInterval :: "service \<Rightarrow> service" where
  "onPingInterval s =
     (case ws s of
        None \<Rightarrow> s
      | Some w \<Rightarrow>
          if readyState w = OPEN then
            logger DEBUG ''Sent ping to server'' (perform (WsPingCall (sockId w)) s)
          else s)"

section \<open>The callbacks registered on a socket\<close>

text \<open>
  The handlers \<open>connect\<close> call \<open>p\<close> registers on its socket. They act on \<open>this\<close>,
  whatever socket \<open>this.ws\<close> is by then; only \<open>resolve\<close> and \<open>reject\<close> belong to
  call \<open>p\<close>.
\<close>

definition onOpen :: "nat \<Rightarrow> service \<Rightarrow> service" where
  "onOpen p s =
     (let s1 = (logger INFO ''WebSocket connected successfully'' s)\<lparr>reconnectAttempts := 0\<rparr>;
          s2 = (case connectionTimeout s1 of
                  None \<Rightarrow> s1
                | Some t \<Rightarrow> (perform (ClearTimeout t) s1)\<lparr>connectionTimeout := None\<rparr>)
      in resolvePromise p (setupPingInterval (resubscribeAll s2)))"

definition onMessage :: "js_error + json \<Rightarrow> service \<Rightarrow> service" where
  "onMessage parsed s = handleMessage parsed s"

definition onError :: "nat \<Rightarrow> js_error \<Rightarrow> service \<Rightarrow> service" where
  "onError p err s =
     (case ws s of
        None \<Rightarrow> rejectPromise p err (logger ERROR ''WebSocket error'' s)
      | Some w \<Rightarrow>
          if readyState w \<noteq> OPEN then rejectPromise p err (logger ERROR ''WebSocket error'' s)
          else logger ERROR ''WebSocket error'' s)"

definition onClose :: "service \<Rightarrow> service" where
  "onClose s =
     (let s1 = logger WARN ''WebSocket disconnected'' s;
          s2 = (case pingInterval s1 of
                  None \<Rightarrow> s1
                | Some t \<Rightarrow> (perform (ClearInterval t) s1)\<lparr>pingInterval := None\<rparr>)
      in handleDisconnect s2)"

definition onPing :: "service \<Rightarrow> service" where
  "onPing s = logger DEBUG ''Received ping from server'' s"

definition onPong :: "service \<Rightarrow> service" where
  "onPong s = logger DEBUG ''Received pong from server'' s"

section \<open>Runs of the service\<close>

text \<open>
  The library changes the \<open>readyState\<close> of a socket; the service sees the change when
  \<open>this.ws\<close> is that socket.
\<close>

definition setReadyState :: "nat \<Rightarrow> ready_state \<Rightarrow> service \<Rightarrow> service" where
  "setReadyState i r s =
     (case ws s of
        None \<Rightarrow> s
      | Some w \<Rightarrow> if sockId w = i then s\<lparr>ws := Some (w\<lparr>readyState := r\<rparr>)\<rparr> else s)"

text \<open>
  Everything that can happen to a service: a call of a public method, an event of socket
  \<open>i\<close> (\<open>ws\<close> sets the state to \<open>OPEN\<close> before it emits \<open>open\<close> and to \<open>CLOSED\<close>
  before it emits \<open>close\<close>), or a timer firing. Nothing is assumed about the order of
  events, so the runs of the model include every run of the program.
\<close>

datatype event =
    Start "js_error option"
  | Stop
  | Subscribe string
  | Unsubscribe string
  | SocketState nat ready_state
  | SocketOpen nat
  | SocketMessage "js_error + json"
  | SocketError nat js_error
  | SocketClose nat
  | SocketPing
  | SocketPong
  | ConnectionTimeoutFires nat
  | ReconnectTimerFires "js_error option"
  | PingIntervalFires

fun step :: "service \<Rightarrow> event \<Rightarrow> service" where
  "step s (Start thrown) = snd (start thrown s)"
| "step s Stop = stop s"
| "step s (Subscribe symb) = subscribe symb s"
| "step s (Unsubscribe symb) = unsubscribe symb s"
| "step s (SocketState i r) = setReadyState i r s"
| "step s (SocketOpen i) = onOpen i (setReadyState i OPEN s)"
| "step s (SocketMessage parsed) = onMessage parsed s"
| "step s (SocketError i err) = onError i err s"
| "step s (SocketClose i) = onClose (setReadyState i CLOSED s)"
| "step s SocketPing = onPing s"
| "step s SocketPong = onPong s"
| "step s (ConnectionTimeoutFires p) = onConnectionTimeout p s"
| "step s (ReconnectTimerFires thrown) = onReconnectTimer thrown s"
| "step s PingIntervalFires = onPingInterval s"

definition run :: "event list \<Rightarrow> service \<Rightarrow> service" where
  "run evs s = foldl step s evs"

section \<open>Observations on a trace\<close>

text \<open>The frames given to \<open>ws.send\<close>, each with the socket it was sent on.\<close>

fun sentFrame :: "effect \<Rightarrow> (nat \<times> json) option" where
  "sentFrame (WsSend i frame) = Some (i, frame)"
| "sentFrame _ = None"

definition sentFrames :: "effect list \<Rightarrow> (nat \<times> json) list" where
  "sentFrames es = List.map_filter sentFrame es"

text \<open>The delays of the reconnect attempts scheduled by \<open>handleDisconnect\<close>.\<close>

fun scheduledReconnect :: "effect \<Rightarrow> nat option" where
  "scheduledReconnect (SetTimeout t ReconnectCallback d) = Some d"
| "scheduledReconnect _ = None"

definition reconnectDelays :: "effect list \<Rightarrow> nat list" where
  "reconnectDelays es = List.map_filter scheduledReconnect es"

fun isSocketOpen :: "event \<Rightarrow> bool" where
  "isSocketOpen (SocketOpen i) = True"
| "isSocketOpen _ = False"

fun isSocketClose :: "event \<Rightarrow> bool" where
  "isSocketClose (SocketClose i) = True"
| "isSocketClose _ = False"


text \<open>
  What every run from the constructor maintains: a socket is held only while the service
  is running, and the list of subscribed symbols has no repetition (it is a set).
\<close>

definition wellformed :: "service \<Rightarrow> bool" where
  "wellformed s = ((ws s = None \<or> running s) \<and> distinct (subscribedSymbols s))"

text \<open>
  The service of the test suite (\<open>API_KEY\<close>, \<open>WS_URL\<close>), and the state its
  \<open>beforeEach\<close> reaches: \<open>start()\<close> followed by the \<open>open\<close> event of the socket.
\<close>

definition testService :: service where
  "testService = newMarketDataService ''test_api_key'' ''wss://test.finnhub.io''"

definition openService :: service where
  "openService = run [Start None, SocketOpen 0] testService"

text \<open>
  The open service after five disconnects, each followed by its reconnect timer and a
  new socket that closes in turn: the reconnect budget is used up.
\<close>

definition exhaustedService :: service where
  "exhaustedService =
     run [SocketClose 0, ReconnectTimerFires None, SocketClose 1, ReconnectTimerFires None,
          SocketClose 2, ReconnectTimerFires None, SocketClose 3, ReconnectTimerFires None,
          SocketClose 4, ReconnectTimerFires None] openService"


section \<open>Facts about the model\<close>

subsection \<open>Traces\<close>

lemma sentFrames_append [simp]: "sentFrames (xs @ ys) = sentFrames xs @ sentFrames ys"
  by (simp add: sentFrames_def map_filter_def)

lemma sentFrames_Nil [simp]: "sentFrames [] = []"
  by (simp add: sentFrames_def map_filter_def)

lemma sentFrames_Cons [simp]:
  "sentFrames (e # es) = (case sentFrame e of None \<Rightarrow> sentFrames es | Some f \<Rightarrow> f # sentFrames es)"
  by (simp add: sentFrames_def map_filter_def split: option.splits)

lemma reconnectDelays_append [simp]:
  "reconnectDelays (xs @ ys) = reconnectDelays xs @ reconnectDelays ys"
  by (simp add: reconnectDelays_def map_filter_def)

lemma reconnectDelays_Nil [simp]: "reconnectDelays [] = []"
  by (simp add: reconnectDelays_def map_filter_def)

lemma reconnectDelays_Cons [simp]:
  "reconnectDelays (e # es) =
     (case scheduledReconnect e of None \<Rightarrow> reconnectDelays es | Some d \<Rightarrow> d # reconnectDelays es)"
  by (simp add: reconnectDelays_def map_filter_def split: option.splits)

subsection \<open>What each operation leaves alone\<close>

lemmas prim_defs = logger_def perform_def

lemma subscribe_frame [simp]:
  "ws (subscribe x s) = ws s"
  "running (subscribe x s) = running s"
  "reconnectAttempts (subscribe x s) = reconnectAttempts s"
  "reconnectDelays (effects (subscribe x s)) = reconnectDelays (effects s)"
  "count_list (effects (subscribe x s)) EmitConnectionLost = count_list (effects s) EmitConnectionLost"
  by (simp_all add: subscribe_def prim_defs split: option.splits)

lemma unsubscribe_frame [simp]:
  "ws (unsubscribe x s) = ws s"
  "running (unsubscribe x s) = running s"
  "reconnectAttempts (unsubscribe x s) = reconnectAttempts s"
  "reconnectDelays (effects (unsubscribe x s)) = reconnectDelays (effects s)"
  "count_list (effects (unsubscribe x s)) EmitConnectionLost = count_list (effects s) EmitConnectionLost"
  by (simp_all add: unsubscribe_def prim_defs split: option.splits)

lemma foldl_subscribe_frame [simp]:
  "ws (foldl (\<lambda>st x. subscribe x st) s xs) = ws s"
  "running (foldl (\<lambda>st x. subscribe x st) s xs) = running s"
  "reconnectAttempts (foldl (\<lambda>st x. subscribe x st) s xs) = reconnectAttempts s"
  "reconnectDelays (effects (foldl (\<lambda>st x. subscribe x st) s xs)) = reconnectDelays (effects s)"
  "count_list (effects (foldl (\<lambda>st x. subscribe x st) s xs)) EmitConnectionLost
     = count_list (effects s) EmitConnectionLost"
  by (induction xs arbitrary: s; simp)+

lemma resubscribeAll_frame [simp]:
  "ws (resubscribeAll s) = ws s"
  "running (resubscribeAll s) = running s"
  "reconnectAttempts (resubscribeAll s) = reconnectAttempts s"
  "reconnectDelays (effects (resubscribeAll s)) = reconnectDelays (effects s)"
  "count_list (effects (resubscribeAll s)) EmitConnectionLost = count_list (effects s) EmitConnectionLost"
  by (simp_all add: resubscribeAll_def prim_defs)

lemma resolvePromise_frame [simp]:
  "ws (resolvePromise p s) = ws s"
  "running (resolvePromise p s) = running s"
  "subscribedSymbols (resolvePromise p s) = subscribedSymbols s"
  "reconnectAttempts (resolvePromise p s) = reconnectAttempts s"
  "reconnectDelays (effects (resolvePromise p s)) = reconnectDelays (effects s)"
  "count_list (effects (resolvePromise p s)) EmitConnectionLost = count_list (effects s) EmitConnectionLost"
  by (simp_all add: resolvePromise_def forget_def prim_defs split: option.splits awaiter.splits)

lemma rejectPromise_frame [simp]:
  "ws (rejectPromise p err s) = ws s"
  "running (rejectPromise p err s) = running s"
  "subscribedSymbols (rejectPromise p err s) = subscribedSymbols s"
  "reconnectAttempts (rejectPromise p err s) = reconnectAttempts s"
  "reconnectDelays (effects (rejectPromise p err s)) = reconnectDelays (effects s)"
  "count_list (effects (rejectPromise p err s)) EmitConnectionLost = count_list (effects s) EmitConnectionLost"
  by (simp_all add: rejectPromise_def forget_def prim_defs split: option.splits awaiter.splits)

lemma connect_frame [simp]:
  "running (snd (connect thrown s)) = running s"
  "subscribedSymbols (snd (connect thrown s)) = subscribedSymbols s"
  "reconnectAttempts (snd (connect thrown s)) = reconnectAttempts s"
  "reconnectDelays (effects (snd (connect thrown s))) = reconnectDelays (effects s)"
  "count_list (effects (snd (connect thrown s))) EmitConnectionLost = count_list (effects s) EmitConnectionLost"
  by (simp_all add: connect_def prim_defs split: option.splits)

lemma start_frame [simp]:
  "subscribedSymbols (snd (start thrown s)) = subscribedSymbols s"
  "reconnectAttempts (snd (start thrown s)) = reconnectAttempts s"
  "reconnectDelays (effects (snd (start thrown s))) = reconnectDelays (effects s)"
  "count_list (effects (snd (start thrown s))) EmitConnectionLost = count_list (effects s) EmitConnectionLost"
  by (simp_all add: start_def connect_def prim_defs split: option.splits)

lemma start_running [simp]: "running (snd (start thrown s))"
  by (simp add: start_def connect_def prim_defs split: option.splits)

lemma forEachTrade_frame [simp]:
  "ws (fst (forEachTrade es s)) = ws s"
  "running (fst (forEachTrade es s)) = running s"
  "subscribedSymbols (fst (forEachTrade es s)) = subscribedSymbols s"
  "reconnectAttempts (fst (forEachTrade es s)) = reconnectAttempts s"
  "reconnectDelays (effects (fst (forEachTrade es s))) = reconnectDelays (effects s)"
  "count_list (effects (fst (forEachTrade es s))) EmitConnectionLost = count_list (effects s) EmitConnectionLost"
  by (induction es arbitrary: s; simp add: prim_defs split: sum.splits)+

lemma handleMessage_frame [simp]:
  "ws (handleMessage parsed s) = ws s"
  "running (handleMessage parsed s) = running s"
  "subscribedSymbols (handleMessage parsed s) = subscribedSymbols s"
  "reconnectAttempts (handleMessage parsed s) = reconnectAttempts s"
  "reconnectDelays (effects (handleMessage parsed s)) = reconnectDelays (effects s)"
  "count_list (effects (handleMessage parsed s)) EmitConnectionLost = count_list (effects s) EmitConnectionLost"
  by (simp_all add: handleMessage_def logger_def case_prod_beta split: sum.splits option.splits json.splits)

lemma setReadyState_frame [simp]:
  "running (setReadyState i r s) = running s"
  "subscribedSymbols (setReadyState i r s) = subscribedSymbols s"
  "reconnectAttempts (setReadyState i r s) = reconnectAttempts s"
  "effects (setReadyState i r s) = effects s"
  "(ws (setReadyState i r s) = None) = (ws s = None)"
  by (simp_all add: setReadyState_def split: option.splits)

lemma onReconnectTimer_frame [simp]:
  "running (onReconnectTimer thrown s) = running s"
  "subscribedSymbols (onReconnectTimer thrown s) = subscribedSymbols s"
  "reconnectAttempts (onReconnectTimer thrown s) = reconnectAttempts s"
  "reconnectDelays (effects (onReconnectTimer thrown s)) = reconnectDelays (effects s)"
  "count_list (effects (onReconnectTimer thrown s)) EmitConnectionLost = count_list (effects s) EmitConnectionLost"
  by (simp_all add: onReconnectTimer_def connect_def prim_defs split: option.splits)

lemma onConnectionTimeout_frame [simp]:
  "ws (onConnectionTimeout p s) = ws s"
  "running (onConnectionTimeout p s) = running s"
  "subscribedSymbols (onConnectionTimeout p s) = subscribedSymbols s"
  "reconnectAttempts (onConnectionTimeout p s) = reconnectAttempts s"
  "reconnectDelays (effects (onConnectionTimeout p s)) = reconnectDelays (effects s)"
  "count_list (effects (onConnectionTimeout p s)) EmitConnectionLost = count_list (effects s) EmitConnectionLost"
  by (simp_all add: onConnectionTimeout_def prim_defs split: option.splits)

lemma onPingInterval_frame [simp]:
  "ws (onPingInterval s) = ws s"
  "running (onPingInterval s) = running s"
  "subscribedSymbols (onPingInterval s) = subscribedSymbols s"
  "reconnectAttempts (onPingInterval s) = reconnectAttempts s"
  "reconnectDelays (effects (onPingInterval s)) = reconnectDelays (effects s)"
  "count_list (effects (onPingInterval s)) EmitConnectionLost = count_list (effects s) EmitConnectionLost"
  by (simp_all add: onPingInterval_def prim_defs split: option.splits)

lemma onError_frame [simp]:
  "ws (onError p err s) = ws s"
  "running (onError p err s) = running s"
  "subscribedSymbols (onError p err s) = subscribedSymbols s"
  "reconnectAttempts (onError p err s) = reconnectAttempts s"
  "reconnectDelays (effects (onError p err s)) = reconnectDelays (effects s)"
  "count_list (effects (onError p err s)) EmitConnectionLost = count_list (effects s) EmitConnectionLost"
  by (simp_all add: onError_def logger_def split: option.splits)

lemma onOpen_frame [simp]:
  "ws (onOpen p s) = ws s"
  "running (onOpen p s) = running s"
  "reconnectAttempts (onOpen p s) = 0"
  "reconnectDelays (effects (onOpen p s)) = reconnectDelays (effects s)"
  "count_list (effects (onOpen p s)) EmitConnectionLost = count_list (effects s) EmitConnectionLost"
  by (simp_all add: onOpen_def setupPingInterval_def prim_defs Let_def split: option.splits)

lemma handleDisconnect_frame [simp]:
  "ws (handleDisconnect s) = ws s"
  "running (handleDisconnect s) = running s"
  "subscribedSymbols (handleDisconnect s) = subscribedSymbols s"
  by (simp_all add: handleDisconnect_def prim_defs)

lemma onClose_frame [simp]:
  "ws (onClose s) = ws s"
  "running (onClose s) = running s"
  "subscribedSymbols (onClose s) = subscribedSymbols s"
  by (simp_all add: onClose_def prim_defs Let_def split: option.splits)

lemma stop_frame [simp]:
  "reconnectAttempts (stop s) = reconnectAttempts s"
  "reconnectDelays (effects (stop s)) = reconnectDelays (effects s)"
  "count_list (effects (stop s)) EmitConnectionLost = count_list (effects s) EmitConnectionLost"
  "\<not> running (stop s)"
  by (simp_all add: stop_def prim_defs Let_def split: option.splits)

subsection \<open>Runs\<close>

lemma run_Nil [simp]: "run [] s = s"
  by (simp add: run_def)

lemma run_Cons [simp]: "run (e # evs) s = run evs (step s e)"
  by (simp add: run_def)

lemma run_append [simp]: "run (evs @ evs') s = run evs' (run evs s)"
  by (simp add: run_def)

subsection \<open>The invariant of all runs\<close>

lemma distinct_setAdd: "distinct xs \<Longrightarrow> distinct (setAdd x xs)"
  by (simp add: setAdd_def)

lemma distinct_setDelete: "distinct xs \<Longrightarrow> distinct (setDelete x xs)"
  by (simp add: setDelete_def)

lemma subscribe_distinct:
  "distinct (subscribedSymbols s) \<Longrightarrow> distinct (subscribedSymbols (subscribe x s))"
  by (simp add: subscribe_def prim_defs distinct_setAdd split: option.splits)

lemma unsubscribe_distinct:
  "distinct (subscribedSymbols s) \<Longrightarrow> distinct (subscribedSymbols (unsubscribe x s))"
  by (simp add: unsubscribe_def prim_defs distinct_setDelete split: option.splits)

lemma foldl_subscribe_distinct:
  "distinct (subscribedSymbols s) \<Longrightarrow>
   distinct (subscribedSymbols (foldl (\<lambda>st x. subscribe x st) s xs))"
  by (induction xs arbitrary: s) (simp_all add: subscribe_distinct)

lemma resubscribeAll_distinct:
  "distinct (subscribedSymbols s) \<Longrightarrow> distinct (subscribedSymbols (resubscribeAll s))"
  by (simp add: resubscribeAll_def logger_def foldl_subscribe_distinct)

lemma onOpen_distinct:
  "distinct (subscribedSymbols s) \<Longrightarrow> distinct (subscribedSymbols (onOpen p s))"
  by (simp add: onOpen_def setupPingInterval_def prim_defs Let_def resubscribeAll_distinct
      split: option.splits)

lemma wellformed_new: "wellformed (newMarketDataService key url)"
  by (simp add: wellformed_def newMarketDataService_def)

lemma wellformed_start: "wellformed s \<Longrightarrow> wellformed (snd (start thrown s))"
  by (simp add: wellformed_def)

lemma wellformed_stop: "wellformed s \<Longrightarrow> wellformed (stop s)"
  by (auto simp add: wellformed_def stop_def prim_defs Let_def split: option.splits)

lemma wellformed_onReconnectTimer: "wellformed s \<Longrightarrow> wellformed (onReconnectTimer thrown s)"
  by (auto simp add: wellformed_def onReconnectTimer_def connect_def prim_defs split: option.splits)

lemma wellformed_step: "wellformed s \<Longrightarrow> wellformed (step s e)"
proof (cases e)
  case (Start thrown)
  assume "wellformed s"
  with Start show ?thesis by (simp add: wellformed_start)
next
  case Stop
  assume "wellformed s"
  with Stop show ?thesis by (simp add: wellformed_stop)
next
  case (Subscribe x)
  assume "wellformed s"
  with Subscribe show ?thesis by (simp add: wellformed_def subscribe_distinct)
next
  case (Unsubscribe x)
  assume "wellformed s"
  with Unsubscribe show ?thesis by (simp add: wellformed_def unsubscribe_distinct)
next
  case (SocketOpen i)
  assume "wellformed s"
  with SocketOpen show ?thesis by (simp add: wellformed_def onOpen_distinct)
next
  case (ReconnectTimerFires thrown)
  assume "wellformed s"
  with ReconnectTimerFires show ?thesis by (simp add: wellformed_onReconnectTimer)
qed (simp_all add: wellformed_def onMessage_def onPing_def onPong_def logger_def)

lemma wellformed_run: "wellformed s \<Longrightarrow> wellformed (run evs s)"
  by (induction evs arbitrary: s) (simp_all add: wellformed_step)

lemma wellformed_reachable: "wellformed (run evs (newMarketDataService key url))"
  by (simp add: wellformed_run wellformed_new)

subsection \<open>Only \<open>stop\<close> ends a running service\<close>

lemma running_step: "running s \<Longrightarrow> e \<noteq> Stop \<Longrightarrow> running (step s e)"
  by (cases e) (simp_all add: onMessage_def onPing_def onPong_def logger_def)

lemma running_run: "running s \<Longrightarrow> Stop \<notin> set evs \<Longrightarrow> running (run evs s)"
proof (induction evs arbitrary: s)
  case Nil
  then show ?case by simp
next
  case (Cons e evs)
  from Cons.prems have "e \<noteq> Stop" and "Stop \<notin> set evs" by auto
  with Cons.prems(1) have "running (step s e)" by (simp add: running_step)
  with Cons.IH \<open>Stop \<notin> set evs\<close> show ?case by simp
qed

subsection \<open>Reconnect attempts along a run\<close>

lemma step_reconnectAttempts:
  "running s \<Longrightarrow> e \<noteq> Stop \<Longrightarrow> \<not> isSocketOpen e \<Longrightarrow>
   reconnectAttempts (step s e) =
     (if isSocketClose e \<and> reconnectAttempts s < maxReconnectAttempts
      then reconnectAttempts s + 1 else reconnectAttempts s)"
  by (cases e)
    (simp_all add: onMessage_def onPing_def onPong_def onClose_def handleDisconnect_def
      prim_defs Let_def split: option.splits)

lemma step_reconnectDelays:
  "running s \<Longrightarrow> e \<noteq> Stop \<Longrightarrow> \<not> isSocketOpen e \<Longrightarrow>
   reconnectDelays (effects (step s e)) =
     reconnectDelays (effects s) @
     (if isSocketClose e \<and> reconnectAttempts s < maxReconnectAttempts
      then [reconnectDelay * (reconnectAttempts s + 1)] else [])"
  by (cases e)
    (simp_all add: onMessage_def onPing_def onPong_def onClose_def handleDisconnect_def
      prim_defs Let_def split: option.splits)

lemma step_connectionLost:
  "running s \<Longrightarrow> e \<noteq> Stop \<Longrightarrow> \<not> isSocketOpen e \<Longrightarrow>
   count_list (effects (step s e)) EmitConnectionLost =
     count_list (effects s) EmitConnectionLost +
     (if isSocketClose e \<and> \<not> reconnectAttempts s < maxReconnectAttempts then 1 else 0)"
  by (cases e)
    (simp_all add: onMessage_def onPing_def onPong_def onClose_def handleDisconnect_def
      prim_defs Let_def split: option.splits)

lemma take_delays:
  "n < 5 \<Longrightarrow>
   take (Suc n) [5000, 10000, 15000, 20000, 25000::nat]
     = take n [5000, 10000, 15000, 20000, 25000] @ [reconnectDelay * (n + 1)]"
proof -
  assume "n < 5"
  then have "n = 0 \<or> n = 1 \<or> n = 2 \<or> n = 3 \<or> n = 4" by arith
  then show ?thesis
    by (auto simp add: take_Suc_conv_app_nth reconnectDelay_def)
qed

lemma reconnect_progress:
  assumes "running s" and "reconnectAttempts s = 0"
    and "Stop \<notin> set evs" and "\<forall>e\<in>set evs. \<not> isSocketOpen e"
  shows "running (run evs s)
    \<and> reconnectAttempts (run evs s) = min (length (filter isSocketClose evs)) 5
    \<and> reconnectDelays (effects (run evs s))
        = reconnectDelays (effects s)
          @ take (length (filter isSocketClose evs)) [5000, 10000, 15000, 20000, 25000]
    \<and> count_list (effects (run evs s)) EmitConnectionLost
        = count_list (effects s) EmitConnectionLost + (length (filter isSocketClose evs) - 5)"
  using assms(3,4)
proof (induction evs rule: rev_induct)
  case Nil
  then show ?case using assms(1,2) by simp
next
  case (snoc e evs)
  let ?s = "run evs s" and ?n = "length (filter isSocketClose evs)"
  from snoc.prems have e: "e \<noteq> Stop" "\<not> isSocketOpen e"
    and evs: "Stop \<notin> set evs" "\<forall>e\<in>set evs. \<not> isSocketOpen e" by auto
  from snoc.IH [OF evs] have
    r: "running ?s" and a: "reconnectAttempts ?s = min ?n 5"
    and d: "reconnectDelays (effects ?s)
        = reconnectDelays (effects s) @ take ?n [5000, 10000, 15000, 20000, 25000]"
    and c: "count_list (effects ?s) EmitConnectionLost
        = count_list (effects s) EmitConnectionLost + (?n - 5)"
    by simp_all
  note st = running_step [OF r e(1)] step_reconnectAttempts [OF r e]
    step_reconnectDelays [OF r e] step_connectionLost [OF r e]
  show ?case
  proof (cases "isSocketClose e")
    case False
    with st a d c show ?thesis by simp
  next
    case True
    show ?thesis
    proof (cases "?n < 5")
      case True
      with \<open>isSocketClose e\<close> st a d c take_delays [OF True] show ?thesis
        by (simp add: maxReconnectAttempts_def)
    next
      case False
      with \<open>isSocketClose e\<close> st a d c show ?thesis
        by (simp add: maxReconnectAttempts_def)
    qed
  qed
qed

subsection \<open>The states of the test suite\<close>

lemmas op_defs = start_def connect_def stop_def subscribe_def unsubscribe_def resubscribeAll_def
  handleMessage_def handleDisconnect_def onReconnectTimer_def onConnectionTimeout_def
  setupPingInterval_def onPingInterval_def onOpen_def onMessage_def onError_def onClose_def
  onPing_def onPong_def setReadyState_def resolvePromise_def rejectPromise_def forget_def
  logger_def perform_def setAdd_def setDelete_def maxReconnectAttempts_def reconnectDelay_def

lemma openService_state:
  "openService =
     \<lparr>apiKey = ''test_api_key'', wsUrl = ''wss://test.finnhub.io'',
      ws = Some \<lparr>sockId = 0, readyState = OPEN\<rparr>, running = True,
      reconnectAttempts = 0, subscribedSymbols = [], pingInterval = Some 1,
      connectionTimeout = None, socketCount = 1, timerCount = 2, pendingConnects = [],
      effects =
        [NewWebSocket 0 ''wss://test.finnhub.io?token=test_api_key'',
         SetTimeout 0 (ConnectionTimeoutCallback 0) 10000, ClearTimeout 0,
         SetInterval 1 PingCallback 30000, StartResolved],
      logs =
        [(INFO, ''Starting market data service''),
         (DEBUG, ''Connecting to Finnhub WebSocket''),
         (INFO, ''WebSocket connected successfully''),
         (DEBUG, ''No symbols to resubscribe''),
         (INFO, ''Market data service started'')]\<rparr>"
  by (simp add: openService_def testService_def newMarketDataService_def op_defs Let_def)

lemma exhaustedService_fields:
  "running exhaustedService"
  "reconnectAttempts exhaustedService = 5"
  "ws exhaustedService = Some \<lparr>sockId = 5, readyState = CONNECTING\<rparr>"
  "subscribedSymbols exhaustedService = []"
  "reconnectDelays (effects exhaustedService) = [5000, 10000, 15000, 20000, 25000]"
  "count_list (effects exhaustedService) EmitConnectionLost = 0"
  by (simp_all add: exhaustedService_def openService_state op_defs Let_def)

lemma count_list_distinct:
  "distinct xs \<Longrightarrow> count_list xs x = (if x \<in> set xs then 1 else 0)"
  by (induction xs) auto

subsection \<open>Replaying the subscriptions\<close>

lemma foldl_setAdd_fresh:
  "distinct xs \<Longrightarrow> set xs \<inter> set ys = {} \<Longrightarrow> foldl (\<lambda>acc x. setAdd x acc) ys xs = ys @ xs"
proof (induction xs arbitrary: ys)
  case Nil
  then show ?case by simp
next
  case (Cons x xs)
  from Cons.prems have "x \<notin> set ys" by auto
  then have "setAdd x ys = ys @ [x]" by (simp add: setAdd_def)
  moreover from Cons.prems have "distinct xs" and "set xs \<inter> set (ys @ [x]) = {}" by auto
  ultimately show ?case using Cons.IH [of "ys @ [x]"] by simp
qed

lemma subscribe_open:
  assumes "running s" and "ws s = Some w" and "readyState w = OPEN"
  shows "effects (subscribe x s) = effects s @ [WsSend (sockId w) (subscribeMessage x)]"
    and "subscribedSymbols (subscribe x s) = setAdd x (subscribedSymbols s)"
  using assms by (simp_all add: subscribe_def prim_defs)

lemma foldl_subscribe_open:
  assumes "running s" and "ws s = Some w" and "readyState w = OPEN"
  shows "effects (foldl (\<lambda>st x. subscribe x st) s xs)
           = effects s @ map (\<lambda>x. WsSend (sockId w) (subscribeMessage x)) xs
         \<and> subscribedSymbols (foldl (\<lambda>st x. subscribe x st) s xs)
           = foldl (\<lambda>acc x. setAdd x acc) (subscribedSymbols s) xs"
  using assms
proof (induction xs arbitrary: s)
  case Nil
  then show ?case by simp
next
  case (Cons x xs)
  have "running (subscribe x s)" and "ws (subscribe x s) = Some w"
    using Cons.prems by simp_all
  from Cons.IH [OF this \<open>readyState w = OPEN\<close>] subscribe_open [OF Cons.prems, of x]
  show ?case by simp
qed

lemma resubscribeAll_open:
  assumes "running s" and "ws s = Some w" and "readyState w = OPEN"
    and "distinct (subscribedSymbols s)"
  shows "effects (resubscribeAll s)
           = effects s @ map (\<lambda>x. WsSend (sockId w) (subscribeMessage x)) (subscribedSymbols s)"
    and "subscribedSymbols (resubscribeAll s) = subscribedSymbols s"
proof -
  let ?s1 = "(logger INFO ''Resubscribing to all symbols'' s)\<lparr>subscribedSymbols := []\<rparr>"
  have s1: "running ?s1" "ws ?s1 = Some w" "effects ?s1 = effects s" "subscribedSymbols ?s1 = []"
    using assms by (simp_all add: logger_def)
  note f = foldl_subscribe_open [OF s1(1) s1(2) assms(3), of "subscribedSymbols s"]
  show "effects (resubscribeAll s)
           = effects s @ map (\<lambda>x. WsSend (sockId w) (subscribeMessage x)) (subscribedSymbols s)"
    using f s1 by (simp add: resubscribeAll_def logger_def)
  show "subscribedSymbols (resubscribeAll s) = subscribedSymbols s"
    using f s1 foldl_setAdd_fresh [OF assms(4), of "[]"]
    by (simp add: resubscribeAll_def logger_def)
qed

lemma sentFrames_map_WsSend [simp]:
  "sentFrames (map (\<lambda>x. WsSend i (f x)) xs) = map (\<lambda>x. (i, f x)) xs"
  by (induction xs) simp_all

lemma settle_sentFrames [simp]:
  "sentFrames (effects (resolvePromise p s)) = sentFrames (effects s)"
  "sentFrames (effects (rejectPromise p err s)) = sentFrames (effects s)"
  by (simp_all add: resolvePromise_def rejectPromise_def forget_def prim_defs
      split: option.splits awaiter.splits)

lemma wellformed_running: "wellformed s \<Longrightarrow> ws s = Some w \<Longrightarrow> running s"
  by (auto simp add: wellformed_def)

lemma wellformed_distinct: "wellformed s \<Longrightarrow> distinct (subscribedSymbols s)"
  by (simp add: wellformed_def)



subsection \<open>A batch of trades\<close>

lemma forEachTrade_objects:
  "forEachTrade (map JObj objs) s =
     (s\<lparr>effects := effects s @ map (\<lambda>kvs. EmitMarketTick
            \<lparr>symbol = map_of kvs ''s'', price = map_of kvs ''p'',
             volume = map_of kvs ''v'', timestamp = map_of kvs ''t''\<rparr>) objs,
        logs := logs s @ replicate (length objs) (DEBUG, ''Market tick'')\<rparr>, None)"
proof (induction objs arbitrary: s)
  case Nil
  then show ?case by simp
next
  case (Cons kvs objs)
  show ?case
    by (simp add: Cons.IH tickOf_def prim_defs replicate_append_same)
qed


section \<open>The claims\<close>

subsection \<open>C1: terminal reconnection failure and \<open>isRunning\<close>\<close>

text \<open>
  C1 says that \<open>isRunning()\<close> is false once the reconnect budget is used up and
  the connection-lost event has been emitted. \<open>handleDisconnect\<close> never assigns
  \<open>running\<close>: on the open service of the test suite, after five disconnects that each
  scheduled a reconnect, the sixth \<open>close\<close> event emits the connection-lost event,
  schedules nothing, and \<open>isRunning()\<close> is still true.
\<close>

theorem terminal_failure_is_running:
  "last (effects (step exhaustedService (SocketClose 5))) = EmitConnectionLost
   \<and> reconnectDelays (effects (step exhaustedService (SocketClose 5)))
       = reconnectDelays (effects exhaustedService)
   \<and> isRunning (step exhaustedService (SocketClose 5))"
  by (simp add: exhaustedService_fields onClose_def handleDisconnect_def isRunning_def
      setReadyState_def prim_defs Let_def maxReconnectAttempts_def split: option.splits)

text \<open>
  C1, as the code has it: after the service reaches terminal reconnection failure (a
  disconnect of a running service whose attempt counter has reached the maximum, which
  emits the connection-lost event), \<open>isRunning()\<close> still returns true, and it stays
  true over every later sequence of calls and events that contains no \<open>stop()\<close>;
  \<open>stop()\<close> then makes it false.
\<close>

theorem terminal_failure_running_until_stop:
  assumes "running s" and "maxReconnectAttempts \<le> reconnectAttempts s"
    and "Stop \<notin> set evs"
  shows "effects (handleDisconnect s) = effects s @ [EmitConnectionLost]
    \<and> isRunning (handleDisconnect s)
    \<and> isRunning (run evs (handleDisconnect s))
    \<and> \<not> isRunning (stop (run evs (handleDisconnect s)))"
proof -
  from assms(1,2) have "effects (handleDisconnect s) = effects s @ [EmitConnectionLost]"
    by (simp add: handleDisconnect_def prim_defs)
  moreover from assms(1) have r: "running (handleDisconnect s)" by simp
  moreover from r assms(3) have "running (run evs (handleDisconnect s))"
    by (rule running_run)
  moreover have "\<not> running (stop (run evs (handleDisconnect s)))" by simp
  ultimately show ?thesis by (simp add: isRunning_def)
qed

theorem terminal_failure_running_until_stop_witness:
  "running exhaustedService
   \<and> maxReconnectAttempts \<le> reconnectAttempts exhaustedService
   \<and> Stop \<notin> set [Start None, Subscribe ''AAPL'', SocketClose 5]
   \<and> effects (handleDisconnect exhaustedService) = effects exhaustedService @ [EmitConnectionLost]
   \<and> isRunning (handleDisconnect exhaustedService)
   \<and> isRunning
        (run [Start None, Subscribe ''AAPL'', SocketClose 5] (handleDisconnect exhaustedService))
   \<and> \<not> isRunning
        (stop (run [Start None, Subscribe ''AAPL'', SocketClose 5] (handleDisconnect exhaustedService)))"
proof -
  have h1: "running exhaustedService" by (simp add: exhaustedService_fields)
  have h2: "maxReconnectAttempts \<le> reconnectAttempts exhaustedService"
    by (simp add: exhaustedService_fields maxReconnectAttempts_def)
  have h3: "Stop \<notin> set [Start None, Subscribe ''AAPL'', SocketClose 5]" by simp
  show ?thesis
    using h1 h2 h3 terminal_failure_running_until_stop [OF h1 h2 h3] by blast
qed

subsection \<open>C2: \<open>subscribe\<close> and the set of subscribed symbols\<close>

text \<open>
  C2 says that \<open>subscribe(symbol)\<close> adds the symbol in every state, also when the
  service is not running, where it would wait for the next start. The first test of
  \<open>subscribe\<close> is \<open>!this.running || !this.ws\<close>, which logs an error and returns:
  on the freshly constructed service, \<open>subscribe("AAPL")\<close> leaves the set without
  \<open>AAPL\<close>, and a \<open>start()\<close> and the \<open>open\<close> event after it send no frame.
\<close>

theorem subscribe_not_running_drops_symbol:
  "''AAPL'' \<notin> set (getSubscribedSymbols (subscribe ''AAPL'' testService))
   \<and> sentFrames (effects (run [Subscribe ''AAPL'', Start None, SocketOpen 0] testService)) = []"
  by (simp add: testService_def newMarketDataService_def getSubscribedSymbols_def op_defs Let_def)

text \<open>
  C2, as the code has it: for every symbol and every state, \<open>subscribe(symbol)\<close> adds
  the symbol to the set of subscribed symbols when the service is running and holds a
  socket (open or not); when the service is not running or holds no socket, \<open>subscribe\<close>
  leaves the set as it is and sends nothing: the symbol is not queued.
\<close>

theorem subscribe_adds_when_running:
  "(running s \<and> ws s \<noteq> None \<longrightarrow>
      set (getSubscribedSymbols (subscribe x s)) = insert x (set (getSubscribedSymbols s)))
   \<and> (\<not> (running s \<and> ws s \<noteq> None) \<longrightarrow>
      getSubscribedSymbols (subscribe x s) = getSubscribedSymbols s
      \<and> effects (subscribe x s) = effects s)"
  by (auto simp add: getSubscribedSymbols_def subscribe_def prim_defs setAdd_def
      split: option.splits)

theorem subscribe_adds_when_running_witness:
  "running openService \<and> ws openService \<noteq> None
   \<and> set (getSubscribedSymbols (subscribe ''AAPL'' openService))
       = insert ''AAPL'' (set (getSubscribedSymbols openService))
   \<and> \<not> (running testService \<and> ws testService \<noteq> None)
   \<and> getSubscribedSymbols (subscribe ''AAPL'' testService) = getSubscribedSymbols testService
   \<and> effects (subscribe ''AAPL'' testService) = effects testService"
proof -
  have h1: "running openService \<and> ws openService \<noteq> None"
    by (simp add: openService_state)
  have h2: "\<not> (running testService \<and> ws testService \<noteq> None)"
    by (simp add: testService_def newMarketDataService_def)
  show ?thesis
    using h1 h2 subscribe_adds_when_running [of openService "''AAPL''"]
      subscribe_adds_when_running [of testService "''AAPL''"]
    by blast
qed

subsection \<open>C3: \<open>subscribe\<close> twice on an open connection\<close>

text \<open>
  C3 says that two calls of \<open>subscribe("AAPL")\<close> on an open connection send
  exactly one subscribe frame. \<open>subscribe\<close> does not look whether the symbol is
  already in the set before it sends: on the open service of the test suite the two
  calls send two frames.
\<close>

theorem subscribe_twice_sends_twice:
  "sentFrames (effects (run [Subscribe ''AAPL'', Subscribe ''AAPL''] openService))
     = [(0, subscribeMessage ''AAPL''), (0, subscribeMessage ''AAPL'')]"
  by (simp add: openService_state subscribe_def prim_defs setAdd_def)

text \<open>
  C3, as the code has it: in every state the service can reach in which the socket it
  holds is open, two calls of \<open>subscribe(x)\<close> in a row send two subscribe frames for
  \<open>x\<close> on that socket, one per call, and the list of subscribed symbols contains
  \<open>x\<close> exactly once.
\<close>

theorem subscribe_twice_while_open:
  assumes "s = run evs (newMarketDataService key url)"
    and "ws s = Some w" and "readyState w = OPEN"
  shows "sentFrames (effects (subscribe x (subscribe x s)))
           = sentFrames (effects s) @ [(sockId w, subscribeMessage x), (sockId w, subscribeMessage x)]
         \<and> count_list (getSubscribedSymbols (subscribe x (subscribe x s))) x = 1"
proof -
  have wf: "wellformed s" using assms(1) by (simp only: wellformed_reachable)
  have r: "running s" using wf assms(2) by (rule wellformed_running)
  have d: "distinct (subscribedSymbols s)" using wf by (rule wellformed_distinct)
  have r1: "running (subscribe x s)" and w1: "ws (subscribe x s) = Some w"
    using r assms(2) by simp_all
  note a = subscribe_open [OF r assms(2,3), of x]
  note b = subscribe_open [OF r1 w1 assms(3), of x]
  have "distinct (subscribedSymbols (subscribe x (subscribe x s)))"
    using d by (intro subscribe_distinct)
  moreover have "x \<in> set (subscribedSymbols (subscribe x (subscribe x s)))"
    using a b by (simp add: setAdd_def)
  ultimately have "count_list (subscribedSymbols (subscribe x (subscribe x s))) x = 1"
    by (simp add: count_list_distinct)
  then show ?thesis using a b by (simp add: getSubscribedSymbols_def)
qed

theorem subscribe_twice_while_open_witness:
  "openService = run [Start None, SocketOpen 0] (newMarketDataService ''test_api_key'' ''wss://test.finnhub.io'')
   \<and> ws openService = Some \<lparr>sockId = 0, readyState = OPEN\<rparr>
   \<and> readyState \<lparr>sockId = 0, readyState = OPEN\<rparr> = OPEN
   \<and> sentFrames (effects (subscribe ''AAPL'' (subscribe ''AAPL'' openService)))
       = sentFrames (effects openService) @ [(0, subscribeMessage ''AAPL''), (0, subscribeMessage ''AAPL'')]
   \<and> count_list (getSubscribedSymbols (subscribe ''AAPL'' (subscribe ''AAPL'' openService))) ''AAPL'' = 1"
proof -
  have h1: "openService = run [Start None, SocketOpen 0] (newMarketDataService ''test_api_key'' ''wss://test.finnhub.io'')"
    by (simp add: openService_def testService_def)
  have h2: "ws openService = Some \<lparr>sockId = 0, readyState = OPEN\<rparr>"
    by (simp add: openService_state)
  have h3: "readyState \<lparr>sockId = 0, readyState = OPEN\<rparr> = OPEN" by simp
  show ?thesis
    using h1 h2 h3 subscribe_twice_while_open [OF h1 h2 h3, of "''AAPL''"] by simp
qed

subsection \<open>C4: \<open>start\<close> on a running service\<close>

text \<open>
  C4 says that \<open>start()\<close> on a running service fails with an error. The code
  logs a warning and returns: on the open service of the test suite, a second
  \<open>start()\<close> yields a fulfilled promise, as the test "should not start service if
  already running" expects when it awaits the call.
\<close>

theorem start_while_running_is_fulfilled:
  "fst (start None openService) = Fulfilled"
  by (simp add: openService_state start_def)

text \<open>
  C4, as the code has it: \<open>start()\<close> on a service that is already running does not
  fail. It returns successfully at once, and all it does is log a warning: no socket is
  created and no field of the service changes.
\<close>

theorem start_while_running:
  assumes "running s"
  shows "start thrown s = (Fulfilled, s\<lparr>logs := logs s @ [(WARN, ''Service already running'')]\<rparr>)"
  using assms by (simp add: start_def logger_def)

theorem start_while_running_witness:
  "running openService
   \<and> start None openService
       = (Fulfilled, openService\<lparr>logs := logs openService @ [(WARN, ''Service already running'')]\<rparr>)"
proof -
  have h: "running openService" by (simp add: openService_state)
  show ?thesis using h start_while_running [OF h, of None] by blast
qed

subsection \<open>C5: the delays of the reconnect attempts\<close>

text \<open>
  C5: take a running service whose attempt counter is 0 (as every successful open leaves
  it), and any sequence of later calls and events with no \<open>stop()\<close> and no \<open>open\<close>
  event; let \<open>n\<close> be the number of \<open>close\<close> events in it (a retry that fails ends
  in the \<open>close\<close> event of its socket). Then the reconnect delays scheduled along the
  sequence are the first \<open>n\<close> of 5, 10, 15, 20, 25 time units, the time unit being
  1000 ms (the code has \<open>reconnectDelay = 5000\<close> ms times the attempt counter), and
  the connection-lost event is emitted once per \<open>close\<close> event beyond the fifth: the
  sixth disconnect emits it and schedules nothing.
\<close>

theorem reconnect_delay_sequence:
  assumes "running s" and "reconnectAttempts s = 0"
    and "Stop \<notin> set evs" and "\<forall>e\<in>set evs. \<not> isSocketOpen e"
  shows "reconnectDelays (effects (run evs s))
        = reconnectDelays (effects s)
          @ take (length (filter isSocketClose evs)) (map (\<lambda>u. u * 1000) [5, 10, 15, 20, 25])
    \<and> count_list (effects (run evs s)) EmitConnectionLost
        = count_list (effects s) EmitConnectionLost + (length (filter isSocketClose evs) - 5)"
  using reconnect_progress [OF assms] by simp

theorem reconnect_delay_sequence_witness:
  "running openService \<and> reconnectAttempts openService = 0
   \<and> Stop \<notin> set [SocketClose 0, ReconnectTimerFires None, SocketClose 1, ReconnectTimerFires None,
          SocketClose 2, ReconnectTimerFires None, SocketClose 3, ReconnectTimerFires None,
          SocketClose 4, ReconnectTimerFires None, SocketClose 5]
   \<and> list_all (\<lambda>e. \<not> isSocketOpen e) [SocketClose 0, ReconnectTimerFires None, SocketClose 1, ReconnectTimerFires None,
          SocketClose 2, ReconnectTimerFires None, SocketClose 3, ReconnectTimerFires None,
          SocketClose 4, ReconnectTimerFires None, SocketClose 5]
   \<and> reconnectDelays (effects (run [SocketClose 0, ReconnectTimerFires None, SocketClose 1, ReconnectTimerFires None,
          SocketClose 2, ReconnectTimerFires None, SocketClose 3, ReconnectTimerFires None,
          SocketClose 4, ReconnectTimerFires None, SocketClose 5] openService))
       = [5000, 10000, 15000, 20000, 25000]
   \<and> count_list (effects (run [SocketClose 0, ReconnectTimerFires None, SocketClose 1, ReconnectTimerFires None,
          SocketClose 2, ReconnectTimerFires None, SocketClose 3, ReconnectTimerFires None,
          SocketClose 4, ReconnectTimerFires None, SocketClose 5] openService)) EmitConnectionLost = 1"
proof -
  let ?evs = "[SocketClose 0, ReconnectTimerFires None, SocketClose 1, ReconnectTimerFires None,
          SocketClose 2, ReconnectTimerFires None, SocketClose 3, ReconnectTimerFires None,
          SocketClose 4, ReconnectTimerFires None, SocketClose 5]"
  have h1: "running openService" by (simp add: openService_state)
  have h2: "reconnectAttempts openService = 0" by (simp add: openService_state)
  have h3: "Stop \<notin> set ?evs" by simp
  have h4: "\<forall>e\<in>set ?evs. \<not> isSocketOpen e" by simp
  have e: "reconnectDelays (effects openService) = []"
    "count_list (effects openService) EmitConnectionLost = 0"
    by (simp_all add: openService_state)
  show ?thesis
    using h1 h2 h3 h4 e reconnect_delay_sequence [OF h1 h2 h3 h4] by simp
qed

subsection \<open>C6: the replay at open time\<close>




subsection \<open>C7: a trade batch\<close>

text \<open>
  C7: for a frame that parses to an object with \<open>type = "trade"\<close> whose \<open>data\<close> is
  an array of \<open>K\<close> objects, \<open>handleMessage\<close> emits exactly \<open>K\<close> tick events, in the
  order of the array, and the tick of an entry has the entry's \<open>s\<close> as \<open>symbol\<close>,
  \<open>p\<close> as \<open>price\<close>, \<open>v\<close> as \<open>volume\<close> and \<open>t\<close> as \<open>timestamp\<close>.
  (The listeners of the event bus are not part of the class; \<open>emit\<close> is taken to
  return.)
\<close>

theorem trade_batch_ticks:
  assumes "map_of props ''type'' = Some (JStr ''trade'')"
    and "map_of props ''data'' = Some (JArr (map JObj objs))"
  shows "effects (handleMessage (Inr (JObj props)) s)
           = effects s @ map (\<lambda>kvs. EmitMarketTick
               \<lparr>symbol = map_of kvs ''s'', price = map_of kvs ''p'',
                volume = map_of kvs ''v'', timestamp = map_of kvs ''t''\<rparr>) objs
         \<and> length (effects (handleMessage (Inr (JObj props)) s)) = length (effects s) + length objs"
  using assms by (simp add: handleMessage_def forEachTrade_objects logger_def)

theorem trade_batch_ticks_witness:
  "map_of [(''data'', JArr (map JObj
              [[(''s'', JStr ''AAPL''), (''p'', JNum 150.25), (''v'', JNum 100),
                (''t'', JNum 1635782400000), (''c'', JArr [JStr ''1''])],
               [(''s'', JStr ''AAPL''), (''p'', JNum 150.30), (''v'', JNum 200),
                (''t'', JNum 1635782401000), (''c'', JArr [JStr ''1''])]])),
           (''type'', JStr ''trade'')] ''type'' = Some (JStr ''trade'')
   \<and> effects (handleMessage (Inr (JObj
          [(''data'', JArr (map JObj
              [[(''s'', JStr ''AAPL''), (''p'', JNum 150.25), (''v'', JNum 100),
                (''t'', JNum 1635782400000), (''c'', JArr [JStr ''1''])],
               [(''s'', JStr ''AAPL''), (''p'', JNum 150.30), (''v'', JNum 200),
                (''t'', JNum 1635782401000), (''c'', JArr [JStr ''1''])]])),
           (''type'', JStr ''trade'')])) openService)
       = effects openService @
         [EmitMarketTick \<lparr>symbol = Some (JStr ''AAPL''), price = Some (JNum 150.25),
            volume = Some (JNum 100), timestamp = Some (JNum 1635782400000)\<rparr>,
          EmitMarketTick \<lparr>symbol = Some (JStr ''AAPL''), price = Some (JNum 150.30),
            volume = Some (JNum 200), timestamp = Some (JNum 1635782401000)\<rparr>]"
proof -
  let ?objs = "[[(''s'', JStr ''AAPL''), (''p'', JNum 150.25), (''v'', JNum 100),
                (''t'', JNum 1635782400000), (''c'', JArr [JStr ''1''])],
               [(''s'', JStr ''AAPL''), (''p'', JNum 150.30), (''v'', JNum 200),
                (''t'', JNum 1635782401000), (''c'', JArr [JStr ''1''])]]"
  let ?props = "[(''data'', JArr (map JObj ?objs)), (''type'', JStr ''trade'')]"
  have h1: "map_of ?props ''type'' = Some (JStr ''trade'')" by simp
  have h2: "map_of ?props ''data'' = Some (JArr (map JObj ?objs))" by simp
  show ?thesis
    using h1 trade_batch_ticks [OF h1 h2, of openService] by simp
qed

subsection \<open>C8: frames that are no trade batch\<close>

text \<open>
  C8: a frame on which \<open>JSON.parse\<close> throws, a ping frame, and a frame that parses to
  a value whose \<open>type\<close> is anything but \<open>"trade"\<close> (another string, no string, or
  absent) is dropped. \<open>handleMessage\<close> changes nothing but the log: no event is
  emitted and nothing is sent, the socket and the running flag are as before. The
  \<open>try\<close> block spans the whole body, so no exception leaves \<open>handleMessage\<close>; in the
  model it is a total function of the state.
\<close>

theorem other_frames_dropped:
  assumes "case parsed of Inl err \<Rightarrow> True
           | Inr message \<Rightarrow> getProp message ''type'' \<noteq> Inr (Some (JStr ''trade''))"
  shows "handleMessage parsed s = s\<lparr>logs := logs (handleMessage parsed s)\<rparr>
         \<and> effects (handleMessage parsed s) = effects s
         \<and> ws (handleMessage parsed s) = ws s
         \<and> isRunning (handleMessage parsed s) = isRunning s"
  using assms
  by (auto simp add: handleMessage_def logger_def isRunning_def split: sum.splits)

theorem other_frames_dropped_witness:
  "handleMessage (Inl (JsSyntaxError ''Unexpected token i in JSON at position 0'')) openService
     = openService\<lparr>logs := logs (handleMessage
         (Inl (JsSyntaxError ''Unexpected token i in JSON at position 0'')) openService)\<rparr>
   \<and> getProp (JObj [(''type'', JStr ''ping'')]) ''type'' \<noteq> Inr (Some (JStr ''trade''))
   \<and> effects (handleMessage (Inr (JObj [(''type'', JStr ''ping'')])) openService)
       = effects openService
   \<and> isRunning (handleMessage (Inr (JObj [(''type'', JStr ''ping'')])) openService)
   \<and> getProp (JObj [(''type'', JStr ''news'')]) ''type'' \<noteq> Inr (Some (JStr ''trade''))
   \<and> effects (handleMessage (Inr (JObj [(''type'', JStr ''news'')])) openService)
       = effects openService
   \<and> ws (handleMessage (Inr (JObj [(''type'', JStr ''news'')])) openService) = ws openService"
proof -
  let ?bad = "Inl (JsSyntaxError ''Unexpected token i in JSON at position 0'') :: js_error + json"
  let ?ping = "Inr (JObj [(''type'', JStr ''ping'')]) :: js_error + json"
  let ?news = "Inr (JObj [(''type'', JStr ''news'')]) :: js_error + json"
  have h1: "case ?bad of Inl err \<Rightarrow> True
            | Inr message \<Rightarrow> getProp message ''type'' \<noteq> Inr (Some (JStr ''trade''))"
    by simp
  have h2: "case ?ping of Inl err \<Rightarrow> True
            | Inr message \<Rightarrow> getProp message ''type'' \<noteq> Inr (Some (JStr ''trade''))"
    by simp
  have h3: "case ?news of Inl err \<Rightarrow> True
            | Inr message \<Rightarrow> getProp message ''type'' \<noteq> Inr (Some (JStr ''trade''))"
    by simp
  have r: "isRunning openService" by (simp add: isRunning_def openService_state)
  show ?thesis
    using h2 h3 r other_frames_dropped [OF h1, of openService]
      other_frames_dropped [OF h2, of openService] other_frames_dropped [OF h3, of openService]
    by simp
qed

subsection \<open>C9: \<open>stop\<close> twice\<close>




subsection \<open>C10: the replay keeps the set of subscribed symbols\<close>

text \<open>
  C10: in every state the service can reach in which the socket it holds is open,
  \<open>resubscribeAll\<close> leaves the set of subscribed symbols as it found it:
  \<open>getSubscribedSymbols\<close> returns the same set after the replay as before, and even
  the same list.
\<close>

theorem replay_preserves_registry:
  assumes "s = run evs (newMarketDataService key url)"
    and "ws s = Some w" and "readyState w = OPEN"
  shows "set (getSubscribedSymbols (resubscribeAll s)) = set (getSubscribedSymbols s)
         \<and> getSubscribedSymbols (resubscribeAll s) = getSubscribedSymbols s"
proof -
  have wf: "wellformed s" using assms(1) by (simp only: wellformed_reachable)
  have "running s" using wf assms(2) by (rule wellformed_running)
  moreover have "distinct (subscribedSymbols s)" using wf by (rule wellformed_distinct)
  ultimately have "subscribedSymbols (resubscribeAll s) = subscribedSymbols s"
    using assms(2,3) by (intro resubscribeAll_open)
  then show ?thesis by (simp add: getSubscribedSymbols_def)
qed

theorem replay_preserves_registry_witness:
  "run [Subscribe ''AAPL'', Subscribe ''MSFT''] openService
     = run [Start None, SocketOpen 0, Subscribe ''AAPL'', Subscribe ''MSFT'']
         (newMarketDataService ''test_api_key'' ''wss://test.finnhub.io'')
   \<and> ws (run [Subscribe ''AAPL'', Subscribe ''MSFT''] openService) = Some \<lparr>sockId = 0, readyState = OPEN\<rparr>
   \<and> readyState \<lparr>sockId = 0, readyState = OPEN\<rparr> = OPEN
   \<and> getSubscribedSymbols (run [Subscribe ''AAPL'', Subscribe ''MSFT''] openService) = [''AAPL'', ''MSFT'']
   \<and> set (getSubscribedSymbols (resubscribeAll (run [Subscribe ''AAPL'', Subscribe ''MSFT''] openService)))
       = {''AAPL'', ''MSFT''}
   \<and> getSubscribedSymbols (resubscribeAll (run [Subscribe ''AAPL'', Subscribe ''MSFT''] openService))
       = [''AAPL'', ''MSFT'']"
proof -
  let ?s = "run [Subscribe ''AAPL'', Subscribe ''MSFT''] openService"
  have h1: "?s = run [Start None, SocketOpen 0, Subscribe ''AAPL'', Subscribe ''MSFT'']
         (newMarketDataService ''test_api_key'' ''wss://test.finnhub.io'')"
    by (simp add: openService_def testService_def)
  have h2: "ws ?s = Some \<lparr>sockId = 0, readyState = OPEN\<rparr>"
    by (simp add: openService_state)
  have h3: "readyState \<lparr>sockId = 0, readyState = OPEN\<rparr> = OPEN" by simp
  have sy: "getSubscribedSymbols ?s = [''AAPL'', ''MSFT'']"
    by (simp add: openService_state getSubscribedSymbols_def subscribe_def prim_defs setAdd_def)
  show ?thesis
    using h1 h2 h3 sy replay_preserves_registry [OF h1 h2 h3] by simp
qed

end
